theory Spec2Isabelle
  imports Main "HOL-Library.Monad_Syntax"
begin

section \<open>webOS jailer provisioning (platform/webos/init.c)\<close>

text \<open>
  A shallow embedding of the three functions of \<^verbatim>\<open>platform/webos/init.c\<close>:
  \<^verbatim>\<open>http_download_file\<close>, \<^verbatim>\<open>read_webos_release\<close> and
  \<^verbatim>\<open>apply_webos_jailer_fix\<close>. The file system, the JSON tokenizer and the HTTP
  transport are libraries outside the file; they appear as an explicit world state and as
  an environment of oracles that answer each library call. \<^verbatim>\<open>RARCH_LOG\<close> and
  \<^verbatim>\<open>RARCH_ERR\<close> lines are left out, except the two that mark a call of the
  downloader (line 32) and a positive existence check (line 205).
\<close>

subsection \<open>C strings\<close>

text \<open>
  A C string ends at its first NUL byte: \<^verbatim>\<open>strcmp\<close>, \<^verbatim>\<open>strndup\<close> and the
  \<^verbatim>\<open>%s\<close> conversion of \<^verbatim>\<open>snprintf\<close> read no further.
\<close>

definition c_str :: "string \<Rightarrow> string" where
  "c_str s = takeWhile (\<lambda>c. c \<noteq> CHR 0x00) s"

definition strndup :: "string \<Rightarrow> nat \<Rightarrow> string" where
  "strndup s n = take n (c_str s)"

text \<open>\<^verbatim>\<open>strcmp(a, b) == 0\<close>\<close>

definition strcmp_eq :: "string \<Rightarrow> string \<Rightarrow> bool" where
  "strcmp_eq a b = (c_str a = c_str b)"

text \<open>
  \<^verbatim>\<open>snprintf(buf, size, ...)\<close> stores at most \<open>size - 1\<close> characters of the
  formatted text and a terminating NUL; what does not fit is dropped.
\<close>

definition snprintf :: "nat \<Rightarrow> string \<Rightarrow> string" where
  "snprintf n formatted = take (n - 1) formatted"

text \<open>\<^verbatim>\<open>strrchr\<close>: the index of the last occurrence of a character.\<close>

fun strrchr :: "string \<Rightarrow> char \<Rightarrow> nat option" where
  "strrchr [] c = None"
| "strrchr (x # xs) c =
     (case strrchr xs c of
        Some i \<Rightarrow> Some (Suc i)
      | None \<Rightarrow> if x = c then Some 0 else None)"

text \<open>C's integer division truncates towards zero.\<close>

definition c_div :: "int \<Rightarrow> int \<Rightarrow> int" where
  "c_div a b = sgn a * sgn b * (\<bar>a\<bar> div \<bar>b\<bar>)"

subsection \<open>The JSON token stream\<close>

datatype rjson_type =
    RJSON_DONE | RJSON_OBJECT | RJSON_ARRAY | RJSON_OBJECT_END | RJSON_ARRAY_END
  | RJSON_STRING | RJSON_NUMBER | RJSON_TRUE | RJSON_FALSE | RJSON_NULL | RJSON_ERROR

text \<open>
  Modelled from the spec: the tokenizer of \<^verbatim>\<open>formats/rjson.h\<close> is not part of the
  file. The spec has the document parsed ``as a stream of JSON tokens''; a parser is the
  list of tokens still to come, each with the text \<^verbatim>\<open>rjson_get_string\<close> returns
  for it (a pointer, hence possibly NULL), and the text of the current token. At the end
  of the list \<^verbatim>\<open>rjson_next\<close> answers \<^verbatim>\<open>RJSON_DONE\<close>; an end or error token
  is answered again on every later call.
\<close>

type_synonym rjson_tok = "rjson_type \<times> string option"

record rjson_t =
  pending :: "rjson_tok list"
  cur_string :: "string option"

definition rjson_open :: "rjson_tok list \<Rightarrow> rjson_t" where
  "rjson_open toks = \<lparr>pending = toks, cur_string = None\<rparr>"

definition rjson_next :: "rjson_t \<Rightarrow> rjson_type \<times> rjson_t" where
  "rjson_next json =
     (case pending json of
        [] \<Rightarrow> (RJSON_DONE, json)
      | (ty, s) # rest \<Rightarrow>
          if ty = RJSON_DONE \<or> ty = RJSON_ERROR then (ty, json)
          else (ty, \<lparr>pending = rest, cur_string = s\<rparr>))"

definition rjson_get_string :: "rjson_t \<Rightarrow> string option" where
  "rjson_get_string json = cur_string json"

subsection \<open>The identifier reader\<close>

text \<open>
  The loop of \<^verbatim>\<open>read_webos_release\<close> (lines 165 to 182). Every string token the
  loop head meets is taken as a key and the token after it as its value; the loop keeps
  no nesting depth.
\<close>

function scan_release :: "rjson_t \<Rightarrow> string option" where
  "scan_release json =
     (let type = fst (rjson_next json); json1 = snd (rjson_next json) in
      if type = RJSON_DONE \<or> type = RJSON_ERROR then None
      else if type = RJSON_STRING then
        (let key = rjson_get_string json1;
             val_type = fst (rjson_next json1);
             json2 = snd (rjson_next json1) in
         if key \<noteq> None \<and> strcmp_eq (the key) ''webos_release'' \<and> val_type = RJSON_STRING
         then (case rjson_get_string json2 of
                 None \<Rightarrow> None
               | Some val \<Rightarrow> Some (strndup val (length val)))
         else scan_release json2)
      else scan_release json1)"
  by pat_completeness auto

termination scan_release
proof (relation "measure (\<lambda>json. length (pending json))")
  have le: "length (pending (snd (rjson_next j))) \<le> length (pending j)" for j
    by (simp add: rjson_next_def split: list.splits prod.splits)
  have less: "length (pending (snd (rjson_next j))) < length (pending j)"
    if "fst (rjson_next j) \<noteq> RJSON_DONE" "fst (rjson_next j) \<noteq> RJSON_ERROR" for j
    using that by (auto simp: rjson_next_def split: list.splits prod.splits if_splits)
  show "wf (measure (\<lambda>json. length (pending json)))" by simp
  show "(json2, json) \<in> measure (\<lambda>json. length (pending json))"
    if "type = fst (rjson_next json)" "json1 = snd (rjson_next json)"
      "\<not> (type = RJSON_DONE \<or> type = RJSON_ERROR)" "json2 = snd (rjson_next json1)"
    for json type json1 json2
    using that less [of json] le [of json1] by simp
  show "(json1, json) \<in> measure (\<lambda>json. length (pending json))"
    if "type = fst (rjson_next json)" "json1 = snd (rjson_next json)"
      "\<not> (type = RJSON_DONE \<or> type = RJSON_ERROR)"
    for json type json1
    using that less [of json] by simp
qed

declare scan_release.simps [simp del]

subsection \<open>World and environment\<close>

text \<open>
  The resources \<^verbatim>\<open>http_download_file\<close> acquires: the connection context
  (\<^verbatim>\<open>net_http_connection_new\<close>), the transfer handle (\<^verbatim>\<open>net_http_new\<close>), the
  response body buffer (\<^verbatim>\<open>net_http_data\<close>) and the output stream (\<^verbatim>\<open>fopen\<close>).
\<close>

datatype resource = Conn | Transfer | Buffer | OutFile

datatype event =
    Starting_download string string
  | Found_existing
  | Notify string
  | Acquire resource
  | Release resource

record world =
  files :: "string \<rightharpoonup> string"
  dirs :: "string set"
  trace :: "event list"

definition emit :: "event \<Rightarrow> world \<Rightarrow> world" where
  "emit e w = w\<lparr>trace := trace w @ [e]\<rparr>"

text \<open>
  What the HTTP library answers during one call of the downloader: whether the two
  constructors succeed, what \<^verbatim>\<open>net_http_connection_done\<close> and
  \<^verbatim>\<open>net_http_update\<close> return at the \<open>k\<close>-th round of the poll loop, the error
  flag, the status, and the body \<^verbatim>\<open>net_http_data\<close> hands over (NULL, or a buffer
  whose length is \<^verbatim>\<open>len\<close>).
\<close>

record transport =
  conn_new_ok :: bool
  http_new_ok :: bool
  conn_done :: "nat \<Rightarrow> bool"
  update_ok :: "nat \<Rightarrow> bool"
  http_error :: bool
  http_status :: int
  http_data :: "string option"

text \<open>
  The oracles of one run: the tokens \<^verbatim>\<open>rjson\<close> produces for a document, whether
  \<^verbatim>\<open>malloc\<close> and \<^verbatim>\<open>rjson_open_string\<close> succeed, whether \<^verbatim>\<open>path_mkdir\<close>
  and \<^verbatim>\<open>fopen(path, "wb")\<close> succeed on a path, how many bytes \<^verbatim>\<open>fwrite\<close>
  reports as written, how many of the bytes it accepted are in the file once
  \<^verbatim>\<open>fclose\<close> has flushed the stream (the code drops the result of
  \<^verbatim>\<open>fclose\<close>, so a failed flush goes unnoticed), and the transport met by the call
  of the downloader with a given URL and destination.
\<close>

record env =
  rjson_lex :: "string \<Rightarrow> rjson_tok list"
  malloc_ok :: bool
  rjson_open_ok :: bool
  mkdir_ok :: "string \<Rightarrow> bool"
  fopen_wb_ok :: "string \<Rightarrow> bool"
  fwrite_count :: "string \<Rightarrow> nat \<Rightarrow> nat"
  fclose_flushed :: "string \<Rightarrow> nat \<Rightarrow> nat"
  net :: "string \<Rightarrow> string \<Rightarrow> transport"

text \<open>\<^verbatim>\<open>PATH_MAX\<close> of \<^verbatim>\<open>limits.h\<close> on Linux.\<close>

definition PATH_MAX :: nat where
  "PATH_MAX = 4096"

text \<open>
  Modelled from the spec: \<^verbatim>\<open>path_is_valid\<close> of \<^verbatim>\<open>file/file_path.h\<close> is not part
  of the file; the spec's existence check holds for a path that exists and is a non-empty
  file.
\<close>

definition path_is_valid :: "world \<Rightarrow> string \<Rightarrow> bool" where
  "path_is_valid w p = (case files w p of None \<Rightarrow> False | Some content \<Rightarrow> content \<noteq> [])"

text \<open>
  Modelled from the spec: \<^verbatim>\<open>path_is_directory\<close> and \<^verbatim>\<open>path_mkdir\<close> of
  \<^verbatim>\<open>file/file_path.h\<close> are not part of the file; by the spec the directory of the
  destination is created if it is missing, and a failure to create it changes nothing.
  \<^verbatim>\<open>path_mkdir\<close> is the oracle \<open>mkdir_ok\<close> and, when it succeeds, the new
  directory.
\<close>

definition path_is_directory :: "world \<Rightarrow> string \<Rightarrow> bool" where
  "path_is_directory w p = (p \<in> dirs w)"

text \<open>
  Modelled from the spec: \<^verbatim>\<open>net_http_delete\<close> of \<^verbatim>\<open>net/net_http.h\<close> is not part
  of the file; by the spec, releasing the transfer handle ``transitively releases the
  connection''. It does not release the body buffer, which the caller owns.
\<close>

definition net_http_delete :: "world \<Rightarrow> world" where
  "net_http_delete w = emit (Release Conn) (emit (Release Transfer) w)"

subsection \<open>The streaming downloader\<close>

text \<open>Lines 35 to 48: the directory of the destination is created when it is missing.\<close>

definition dirname_of :: "string \<Rightarrow> string" where
  "dirname_of dst_path =
     (let dir = take (PATH_MAX - 1) dst_path in
      case strrchr dir CHR ''/'' of
        None \<Rightarrow> dir
      | Some slash \<Rightarrow> if slash \<noteq> 0 then take slash dir else dir)"

definition ensure_dir :: "env \<Rightarrow> string \<Rightarrow> world \<Rightarrow> world" where
  "ensure_dir e dst_path w =
     (let dir = dirname_of dst_path in
      if \<not> path_is_directory w dir then
        (if \<not> mkdir_ok e dir then w else w\<lparr>dirs := insert dir (dirs w)\<rparr>)
      else w)"

text \<open>
  Lines 69 to 79: the poll loop, from round \<open>k\<close> on. \<open>Some True\<close>: the connection
  reported itself done; \<open>Some False\<close>: \<^verbatim>\<open>net_http_update\<close> failed; \<open>None\<close>: the
  loop never ends.
\<close>

partial_function (option) drive :: "transport \<Rightarrow> nat \<Rightarrow> bool option" where
  "drive t k =
     (if conn_done t k then Some True
      else if \<not> update_ok t k then Some False
      else drive t (Suc k))"

declare drive.simps [code]

text \<open>
  Lines 81 to 131: what follows the poll loop once the connection is done. The result
  depends on what \<^verbatim>\<open>fwrite\<close> reports; the content of the file is what the
  \<^verbatim>\<open>fclose\<close> of lines 120 and 126 has flushed of it.
\<close>

definition finish_download :: "env \<Rightarrow> transport \<Rightarrow> string \<Rightarrow> world \<Rightarrow> bool \<times> world" where
  "finish_download e t dst_path w =
     (if http_error t then (False, net_http_delete w)
      else
        let status = http_status t in
        if c_div status 100 \<noteq> 2 then (False, net_http_delete w)
        else
          let data = http_data t;
              len = (case data of None \<Rightarrow> 0 | Some d \<Rightarrow> length d);
              w1 = (case data of None \<Rightarrow> w | Some d \<Rightarrow> emit (Acquire Buffer) w)
          in
          if data = None \<or> len = 0 then (False, net_http_delete w1)
          else if \<not> fopen_wb_ok e dst_path
          then (False, net_http_delete (emit (Release Buffer) w1))
          else
            let w2 = emit (Acquire OutFile) (w1\<lparr>files := (files w1)(dst_path \<mapsto> [])\<rparr>);
                wrote = min len (fwrite_count e dst_path len);
                on_disk = min wrote (fclose_flushed e dst_path wrote);
                w3 = w2\<lparr>files := (files w2)(dst_path \<mapsto> take on_disk (the data))\<rparr>
            in
            if wrote \<noteq> len
            then (False, net_http_delete (emit (Release Buffer) (emit (Release OutFile) w3)))
            else (True, net_http_delete (emit (Release Buffer) (emit (Release OutFile) w3))))"

definition http_download_file :: "env \<Rightarrow> string \<Rightarrow> string \<Rightarrow> world \<Rightarrow> (bool \<times> world) option" where
  "http_download_file e url dst_path w =
     (let w0 = ensure_dir e dst_path (emit (Starting_download url dst_path) w);
          t = net e url dst_path
      in
      if \<not> conn_new_ok t then Some (False, w0)
      else
        let w1 = emit (Acquire Conn) w0 in
        if \<not> http_new_ok t then Some (False, emit (Release Conn) w1)
        else
          let w2 = emit (Acquire Transfer) w1 in
          case drive t 0 of
            None \<Rightarrow> None
          | Some False \<Rightarrow> Some (False, net_http_delete w2)
          | Some True \<Rightarrow> Some (finish_download e t dst_path w2))"

subsection \<open>The identifier reader and the orchestrator\<close>

text \<open>
  Lines 137 to 161 and 184 to 187: the document is read whole and handed to the
  tokenizer; a file that cannot be opened, a failed allocation and a failed
  \<^verbatim>\<open>rjson_open_string\<close> give NULL.
\<close>

definition read_webos_release :: "env \<Rightarrow> world \<Rightarrow> string \<Rightarrow> string option" where
  "read_webos_release e w os_info_path =
     (case files w os_info_path of
        None \<Rightarrow> None
      | Some buf \<Rightarrow>
          if \<not> malloc_ok e then None
          else if \<not> rjson_open_ok e then None
          else scan_release (rjson_open (rjson_lex e buf)))"

definition home_path :: string where
  "home_path = ''/media/developer''"

definition conf_path :: string where
  "conf_path = snprintf 512 (home_path @ ''/jail_app.conf'')"

definition sig_path :: string where
  "sig_path = snprintf 512 (home_path @ ''/jail_app.conf.sig'')"

text \<open>The text the formats of lines 225 and 228 produce, before it is cut to the buffer.\<close>

definition conf_url_text :: "string \<Rightarrow> string" where
  "conf_url_text webos_release =
     ''https://developer.lge.com/common/file/DownloadFile.dev?sdkVersion=''
     @ c_str webos_release @ ''&fileType=conf''"

definition sig_url_text :: "string \<Rightarrow> string" where
  "sig_url_text webos_release =
     ''https://developer.lge.com/common/file/DownloadFile.dev?sdkVersion=''
     @ c_str webos_release @ ''&fileType=sig''"

definition conf_url :: "string \<Rightarrow> string" where
  "conf_url webos_release = snprintf 512 (conf_url_text webos_release)"

definition sig_url :: "string \<Rightarrow> string" where
  "sig_url webos_release = snprintf 512 (sig_url_text webos_release)"

definition apply_webos_jailer_fix :: "env \<Rightarrow> world \<Rightarrow> (bool \<times> world) option" where
  "apply_webos_jailer_fix e w =
     (case read_webos_release e w ''/var/run/nyx/os_info.json'' of
        None \<Rightarrow> Some (False, w)
      | Some webos_release \<Rightarrow>
          let w1 = (if path_is_valid w conf_path \<and> path_is_valid w sig_path
                    then emit Found_existing w else w);
              w2 = emit (Notify ''webOS: Downloading jailer configuration files'') w1;
              success = True
          in
          case http_download_file e (conf_url webos_release) ''/media/developer/temp/test.1'' w2 of
            None \<Rightarrow> None
          | Some (r1, w3) \<Rightarrow>
              let success = (if \<not> r1 then False else success) in
              case http_download_file e (sig_url webos_release) ''/media/developer/temp/test.2'' w3 of
                None \<Rightarrow> None
              | Some (r2, w4) \<Rightarrow>
                  let success = (if \<not> r2 then False else success) in
                  Some (success, w4))"

subsection \<open>Notions the properties are stated with\<close>

text \<open>
  The poll loop of a transport ends at round \<open>n\<close> at the latest: there the connection
  reports itself done, or \<^verbatim>\<open>net_http_update\<close> fails.
\<close>

definition poll_ends :: "transport \<Rightarrow> nat \<Rightarrow> bool" where
  "poll_ends t n = (conn_done t n \<or> \<not> update_ok t n)"

text \<open>
  The scan of the reader, told on the list of tokens. It advances in units: a token that
  is not a string is passed over alone; a string token is taken as a key, together with
  the token after it as its value. A run of tokens is passed over when it splits into
  such units, none of them an end or error token, and no pair a match (a key equal to
  the field name with a string token as its value).
\<close>

fun skipped :: "rjson_tok list \<Rightarrow> bool" where
  "skipped [] = True"
| "skipped [(ty, k)] = (ty \<noteq> RJSON_DONE \<and> ty \<noteq> RJSON_ERROR \<and> ty \<noteq> RJSON_STRING)"
| "skipped ((ty, k) # (vty, v) # rest) =
     (ty \<noteq> RJSON_DONE \<and> ty \<noteq> RJSON_ERROR \<and>
      (if ty = RJSON_STRING
       then \<not> (k \<noteq> None \<and> strcmp_eq (the k) ''webos_release'' \<and> vty = RJSON_STRING)
            \<and> vty \<noteq> RJSON_DONE \<and> vty \<noteq> RJSON_ERROR \<and> skipped rest
       else skipped ((vty, v) # rest)))"


text \<open>How often a resource is acquired and released in a list of events.\<close>

definition acquired :: "resource \<Rightarrow> event list \<Rightarrow> nat" where
  "acquired r evs = count_list evs (Acquire r)"

definition released :: "resource \<Rightarrow> event list \<Rightarrow> nat" where
  "released r evs = count_list evs (Release r)"

text \<open>The destinations the orchestrator passes to the downloader (lines 235 and 243).\<close>

definition conf_dst :: string where
  "conf_dst = ''/media/developer/temp/test.1''"

definition sig_dst :: string where
  "sig_dst = ''/media/developer/temp/test.2''"

definition os_info_path :: string where
  "os_info_path = ''/var/run/nyx/os_info.json''"


text \<open>The content of a file once a call has returned (none when it has not).\<close>

definition file_after :: "(bool \<times> world) option \<Rightarrow> string \<Rightarrow> string option" where
  "file_after r p = (case r of None \<Rightarrow> None | Some (res, w') \<Rightarrow> files w' p)"

text \<open>
  The world when the orchestrator reaches its first download (after lines 203 to 221):
  a positive existence check has left its log line, and the notification is queued.
\<close>

definition before_downloads :: "world \<Rightarrow> world" where
  "before_downloads w =
     emit (Notify ''webOS: Downloading jailer configuration files'')
       (if path_is_valid w conf_path \<and> path_is_valid w sig_path
        then emit Found_existing w else w)"

subsection \<open>Concrete runs\<close>

text \<open>
  Identifier documents and the tokens the tokenizer produces for them: a flat object
  with the field, an object that holds the field one level down, a flat object whose
  field is the empty string, a flat object whose field is 500 characters long, a document
  that is malformed after the field, a flat object without the field, and a flat object
  with another pair before the field. Any other document fails to parse at once.
\<close>

definition doc_24 :: string where
  \<open>doc_24 = ''{"webos_release":"24"}''\<close>

definition doc_nested :: string where
  \<open>doc_nested = ''{"a":{"webos_release":"x"}}''\<close>

definition doc_empty_value :: string where
  \<open>doc_empty_value = ''{"webos_release":""}''\<close>

definition long_release :: string where
  "long_release = replicate 500 CHR ''a''"

definition doc_long :: string where
  \<open>doc_long = ''{"webos_release":"'' @ long_release @ ''"}''\<close>

definition doc_malformed :: string where
  \<open>doc_malformed = ''{"webos_release":"24",]''\<close>

definition doc_no_field :: string where
  \<open>doc_no_field = ''{"other":"24"}''\<close>

definition doc_pairs :: string where
  \<open>doc_pairs = ''{"a":"b","webos_release":"24"}''\<close>

definition toks_malformed :: "rjson_tok list" where
  "toks_malformed =
     [(RJSON_OBJECT, Some []), (RJSON_STRING, Some ''webos_release''),
      (RJSON_STRING, Some ''24''), (RJSON_ERROR, None)]"

definition toks_no_field :: "rjson_tok list" where
  "toks_no_field =
     [(RJSON_OBJECT, Some []), (RJSON_STRING, Some ''other''),
      (RJSON_STRING, Some ''24''), (RJSON_OBJECT_END, Some [])]"

definition toks_pairs :: "rjson_tok list" where
  "toks_pairs =
     [(RJSON_OBJECT, Some []), (RJSON_STRING, Some ''a''), (RJSON_STRING, Some ''b''),
      (RJSON_STRING, Some ''webos_release''), (RJSON_STRING, Some ''24''),
      (RJSON_OBJECT_END, Some [])]"

definition toks_24 :: "rjson_tok list" where
  "toks_24 =
     [(RJSON_OBJECT, Some []), (RJSON_STRING, Some ''webos_release''),
      (RJSON_STRING, Some ''24''), (RJSON_OBJECT_END, Some [])]"

definition toks_nested :: "rjson_tok list" where
  "toks_nested =
     [(RJSON_OBJECT, Some []), (RJSON_STRING, Some ''a''), (RJSON_OBJECT, Some []),
      (RJSON_STRING, Some ''webos_release''), (RJSON_STRING, Some ''x''),
      (RJSON_OBJECT_END, Some []), (RJSON_OBJECT_END, Some [])]"

definition toks_empty_value :: "rjson_tok list" where
  "toks_empty_value =
     [(RJSON_OBJECT, Some []), (RJSON_STRING, Some ''webos_release''),
      (RJSON_STRING, Some []), (RJSON_OBJECT_END, Some [])]"

definition toks_long :: "rjson_tok list" where
  "toks_long =
     [(RJSON_OBJECT, Some []), (RJSON_STRING, Some ''webos_release''),
      (RJSON_STRING, Some long_release), (RJSON_OBJECT_END, Some [])]"

definition lex_example :: "string \<Rightarrow> rjson_tok list" where
  "lex_example doc =
     (if doc = doc_24 then toks_24
      else if doc = doc_nested then toks_nested
      else if doc = doc_empty_value then toks_empty_value
      else if doc = doc_long then toks_long
      else if doc = doc_malformed then toks_malformed
      else if doc = doc_no_field then toks_no_field
      else if doc = doc_pairs then toks_pairs
      else [(RJSON_ERROR, None)])"

text \<open>
  Transports: one that answers 200 with a body after two rounds of the poll loop, one
  that answers with another status, and one that answers 200 with a buffer of length 0.
\<close>

definition transport_ok :: "string \<Rightarrow> transport" where
  "transport_ok body =
     \<lparr>conn_new_ok = True, http_new_ok = True, conn_done = (\<lambda>k. 2 \<le> k),
      update_ok = (\<lambda>k. True), http_error = False, http_status = 200,
      http_data = Some body\<rparr>"

definition transport_status :: "int \<Rightarrow> transport" where
  "transport_status code =
     \<lparr>conn_new_ok = True, http_new_ok = True, conn_done = (\<lambda>k. 1 \<le> k),
      update_ok = (\<lambda>k. True), http_error = False, http_status = code,
      http_data = Some ''error page''\<rparr>"

definition transport_empty :: transport where
  "transport_empty =
     \<lparr>conn_new_ok = True, http_new_ok = True, conn_done = (\<lambda>k. True),
      update_ok = (\<lambda>k. True), http_error = False, http_status = 200,
      http_data = Some []\<rparr>"

definition env_with :: "(string \<Rightarrow> string \<Rightarrow> transport) \<Rightarrow> env" where
  "env_with n =
     \<lparr>rjson_lex = lex_example, malloc_ok = True, rjson_open_ok = True,
      mkdir_ok = (\<lambda>p. True), fopen_wb_ok = (\<lambda>p. True),
      fwrite_count = (\<lambda>p len. len), fclose_flushed = (\<lambda>p len. len), net = n\<rparr>"

definition env_ok :: env where
  "env_ok = env_with (\<lambda>url dst. transport_ok ''payload'')"

definition env_500 :: env where
  "env_500 = env_with (\<lambda>url dst. transport_status 500)"

definition env_first_fails :: env where
  "env_first_fails =
     env_with (\<lambda>url dst. if dst = conf_dst then transport_status 500
                           else transport_ok ''payload'')"

definition env_empty_body :: env where
  "env_empty_body = env_with (\<lambda>url dst. transport_empty)"

text \<open>An environment whose \<^verbatim>\<open>fclose\<close> flushes only three bytes.\<close>

definition env_lossy_close :: env where
  "env_lossy_close = (env_with (\<lambda>url dst. transport_ok ''payload''))
     \<lparr>fclose_flushed := (\<lambda>p len. 3)\<rparr>"

definition world_with :: "(string \<rightharpoonup> string) \<Rightarrow> world" where
  "world_with fs = \<lparr>files = fs, dirs = {}, trace = []\<rparr>"

definition world_24 :: world where
  "world_24 = world_with [os_info_path \<mapsto> doc_24]"


definition world_no_info :: world where
  "world_no_info = world_with Map.empty"


definition world_empty_value :: world where
  "world_empty_value = world_with [os_info_path \<mapsto> doc_empty_value]"

definition world_long :: world where
  "world_long = world_with [os_info_path \<mapsto> doc_long]"







section \<open>Properties\<close>

subsection \<open>Auxiliary facts\<close>

lemma length_c_str_le: "length (c_str s) \<le> length s"
  by (simp add: c_str_def length_takeWhile_le)

lemma strndup_whole: "strndup s (length s) = c_str s"
  by (simp add: strndup_def length_c_str_le)

lemma c_str_no_NUL: "CHR 0x00 \<notin> set s \<Longrightarrow> c_str s = s"
  by (auto simp: c_str_def)

lemma c_str_empty_iff: "c_str s = [] \<longleftrightarrow> s = [] \<or> hd s = CHR 0x00"
  by (cases s) (simp_all add: c_str_def)

lemma c_div_100_eq_2: "c_div s 100 = 2 \<longleftrightarrow> 200 \<le> s \<and> s \<le> 299"
proof (cases "0 \<le> s")
  case True
  then have "c_div s 100 = s div 100" by (cases "s = 0") (simp_all add: c_div_def)
  then show ?thesis using True by auto
next
  case False
  then have "c_div s 100 = - ((- s) div 100)" by (simp add: c_div_def)
  moreover have "0 \<le> (- s) div 100" using False by simp
  ultimately show ?thesis using False by auto
qed

text \<open>The scanning loop, on the list of tokens.\<close>

lemma scan_release_Nil: "scan_release \<lparr>pending = [], cur_string = c\<rparr> = None"
  by (subst scan_release.simps) (simp add: rjson_next_def)

lemma scan_release_end:
  "ty = RJSON_DONE \<or> ty = RJSON_ERROR \<Longrightarrow>
   scan_release \<lparr>pending = (ty, s) # rest, cur_string = c\<rparr> = None"
  by (subst scan_release.simps) (auto simp: rjson_next_def)

lemma scan_release_other:
  "ty \<noteq> RJSON_DONE \<Longrightarrow> ty \<noteq> RJSON_ERROR \<Longrightarrow> ty \<noteq> RJSON_STRING \<Longrightarrow>
   scan_release \<lparr>pending = (ty, s) # rest, cur_string = c\<rparr>
     = scan_release \<lparr>pending = rest, cur_string = s\<rparr>"
  by (subst scan_release.simps) (simp add: rjson_next_def)

lemma scan_release_last_string:
  "scan_release \<lparr>pending = [(RJSON_STRING, k)], cur_string = c\<rparr> = None"
  by (subst scan_release.simps)
     (simp add: rjson_next_def rjson_get_string_def scan_release_Nil)

lemma scan_release_match:
  "strcmp_eq k ''webos_release'' \<Longrightarrow>
   scan_release \<lparr>pending = (RJSON_STRING, Some k) # (RJSON_STRING, v) # rest, cur_string = c\<rparr>
     = map_option c_str v"
  by (subst scan_release.simps)
     (simp add: rjson_next_def rjson_get_string_def strndup_whole split: option.splits)

lemma scan_release_skip_end:
  "vty = RJSON_DONE \<or> vty = RJSON_ERROR \<Longrightarrow>
   scan_release \<lparr>pending = (RJSON_STRING, k) # (vty, v) # rest, cur_string = c\<rparr> = None"
  by (subst scan_release.simps)
     (auto simp: rjson_next_def rjson_get_string_def scan_release_end)

lemma scan_release_skip:
  "\<not> (k \<noteq> None \<and> strcmp_eq (the k) ''webos_release'' \<and> vty = RJSON_STRING) \<Longrightarrow>
   vty \<noteq> RJSON_DONE \<Longrightarrow> vty \<noteq> RJSON_ERROR \<Longrightarrow>
   scan_release \<lparr>pending = (RJSON_STRING, k) # (vty, v) # rest, cur_string = c\<rparr>
     = scan_release \<lparr>pending = rest, cur_string = v\<rparr>"
  by (subst scan_release.simps)
     (auto simp: rjson_next_def rjson_get_string_def)




lemma skipped_Cons_other:
  "ty \<noteq> RJSON_DONE \<Longrightarrow> ty \<noteq> RJSON_ERROR \<Longrightarrow> ty \<noteq> RJSON_STRING \<Longrightarrow>
   skipped ((ty, s) # pre) = skipped pre"
  by (cases pre) auto

lemma scan_release_SomeD:
  "scan_release \<lparr>pending = toks, cur_string = c\<rparr> = Some s \<Longrightarrow>
   \<exists>pre k v rest. toks = pre @ (RJSON_STRING, Some k) # (RJSON_STRING, Some v) # rest
      \<and> skipped pre \<and> strcmp_eq k ''webos_release'' \<and> s = c_str v"
proof (induction toks arbitrary: c rule: length_induct)
  case (1 toks)
  show ?case
  proof (cases toks)
    case Nil
    with 1(2) show ?thesis by (simp add: scan_release_Nil)
  next
    case (Cons t rest)
    obtain ty s0 where t: "t = (ty, s0)" by (cases t)
    have nend: "ty \<noteq> RJSON_DONE" "ty \<noteq> RJSON_ERROR"
      using 1(2) Cons t by (auto simp: scan_release_end)
    show ?thesis
    proof (cases "ty = RJSON_STRING")
      case False
      with nend 1(2) Cons t
      have "scan_release \<lparr>pending = rest, cur_string = s0\<rparr> = Some s"
        by (simp add: scan_release_other)
      with 1(1) Cons obtain pre k v rest2 where
        r: "rest = pre @ (RJSON_STRING, Some k) # (RJSON_STRING, Some v) # rest2"
        and m: "skipped pre" "strcmp_eq k ''webos_release''" "s = c_str v"
        by (metis length_Cons lessI)
      have "toks = (t # pre) @ (RJSON_STRING, Some k) # (RJSON_STRING, Some v) # rest2"
        using Cons r by simp
      moreover have "skipped (t # pre)"
        using m(1) nend False t by (simp add: skipped_Cons_other)
      ultimately show ?thesis using m by blast
    next
      case True
      show ?thesis
      proof (cases rest)
        case Nil
        with 1(2) Cons t True show ?thesis by (simp add: scan_release_last_string)
      next
        case (Cons t2 rest2)
        obtain vty v0 where t2: "t2 = (vty, v0)" by (cases t2)
        note toks = \<open>toks = t # rest\<close> Cons t t2 True
        show ?thesis
        proof (cases "s0 \<noteq> None \<and> strcmp_eq (the s0) ''webos_release'' \<and> vty = RJSON_STRING")
          case True
          then obtain k where k: "s0 = Some k" "strcmp_eq k ''webos_release''" "vty = RJSON_STRING"
            by auto
          with 1(2) toks have "map_option c_str v0 = Some s"
            by (simp add: scan_release_match)
          then obtain v where v: "v0 = Some v" "s = c_str v" by auto
          have "toks = [] @ (RJSON_STRING, Some k) # (RJSON_STRING, Some v) # rest2"
            using toks k v by simp
          moreover have "skipped []" by simp
          ultimately show ?thesis using k v by blast
        next
          case False
          have vend: "vty \<noteq> RJSON_DONE" "vty \<noteq> RJSON_ERROR"
            using 1(2) toks by (auto simp: scan_release_skip_end)
          with False 1(2) toks
          have "scan_release \<lparr>pending = rest2, cur_string = v0\<rparr> = Some s"
            by (simp add: scan_release_skip)
          with 1(1) toks obtain pre k v rest3 where
            r: "rest2 = pre @ (RJSON_STRING, Some k) # (RJSON_STRING, Some v) # rest3"
            and m: "skipped pre" "strcmp_eq k ''webos_release''" "s = c_str v"
            by (metis length_Cons lessI less_SucI)
          have "toks = (t # t2 # pre) @ (RJSON_STRING, Some k) # (RJSON_STRING, Some v) # rest3"
            using toks r by simp
          moreover have "skipped (t # t2 # pre)"
            using m(1) vend nend False toks by simp
          ultimately show ?thesis using m by blast
        qed
      qed
    qed
  qed
qed



text \<open>The poll loop ends when the transport does; the effects of the library calls.\<close>

lemma drive_stops_from:
  "poll_ends t n \<Longrightarrow> k \<le> n \<Longrightarrow> \<exists>b. drive t k = Some b"
proof (induction "n - k" arbitrary: k)
  case 0
  then have "k = n" by simp
  with 0 show ?case by (subst drive.simps) (auto simp: poll_ends_def)
next
  case (Suc d)
  then have "Suc k \<le> n" "d = n - Suc k" by simp_all
  with Suc have "\<exists>b. drive t (Suc k) = Some b" by blast
  then show ?case by (subst drive.simps) auto
qed

lemma drive_ends: "poll_ends t n \<Longrightarrow> \<exists>b. drive t 0 = Some b"
  by (rule drive_stops_from) simp_all

lemma files_emit [simp]: "files (emit ev w) = files w"
  by (simp add: emit_def)

lemma dirs_emit [simp]: "dirs (emit ev w) = dirs w"
  by (simp add: emit_def)

lemma trace_emit [simp]: "trace (emit ev w) = trace w @ [ev]"
  by (simp add: emit_def)

lemma files_net_http_delete [simp]: "files (net_http_delete w) = files w"
  by (simp add: net_http_delete_def)

lemma trace_net_http_delete [simp]:
  "trace (net_http_delete w) = trace w @ [Release Transfer, Release Conn]"
  by (simp add: net_http_delete_def)

lemma files_ensure_dir [simp]: "files (ensure_dir e dst w) = files w"
  by (simp add: ensure_dir_def Let_def)

lemma trace_ensure_dir [simp]: "trace (ensure_dir e dst w) = trace w"
  by (simp add: ensure_dir_def Let_def)

lemma http_download_file_returns:
  assumes "poll_ends (net e url dst) n"
  shows "\<exists>res w'. http_download_file e url dst w = Some (res, w')"
proof -
  from drive_ends [OF assms] obtain b where "drive (net e url dst) 0 = Some b" ..
  then show ?thesis
    by (cases b) (auto simp: http_download_file_def Let_def split: prod.splits)
qed

lemma finish_download_non2xx:
  "\<not> (200 \<le> http_status t \<and> http_status t \<le> 299) \<Longrightarrow>
   fst (finish_download e t dst w) = False \<and> files (snd (finish_download e t dst w)) = files w"
  by (simp add: finish_download_def c_div_100_eq_2 Let_def)

lemma finish_download_no_body:
  "http_data t = None \<or> http_data t = Some [] \<Longrightarrow>
   fst (finish_download e t dst w) = False \<and> files (snd (finish_download e t dst w)) = files w"
  by (auto simp: finish_download_def Let_def)

lemma finish_download_trace:
  "\<exists>evs. trace (snd (finish_download e t dst w)) = trace w @ evs \<and>
     (http_data t \<noteq> Some [] \<longrightarrow>
        (\<forall>r. acquired r evs + (if r = Conn \<or> r = Transfer then 1 else 0) = released r evs
             \<and> released r evs \<le> 1))"
  apply (cases "http_data t")
   apply (simp add: finish_download_def Let_def acquired_def released_def)
  apply (simp add: finish_download_def Let_def acquired_def released_def)
  done

lemma http_download_file_trace:
  assumes "http_download_file e url dst w = Some (res, w')"
  shows "\<exists>evs. trace w' = trace w @ Starting_download url dst # evs \<and>
     (http_data (net e url dst) \<noteq> Some [] \<longrightarrow>
        (\<forall>r. acquired r evs = released r evs \<and> released r evs \<le> 1))"
proof -
  let ?t = "net e url dst"
  let ?w2 = "emit (Acquire Transfer) (emit (Acquire Conn)
              (ensure_dir e dst (emit (Starting_download url dst) w)))"
  from finish_download_trace [of e ?t dst ?w2] obtain evs where
    evs: "trace (snd (finish_download e ?t dst ?w2)) = trace ?w2 @ evs"
      "http_data ?t \<noteq> Some [] \<longrightarrow>
        (\<forall>r. acquired r evs + (if r = Conn \<or> r = Transfer then 1 else 0) = released r evs
             \<and> released r evs \<le> 1)"
    by blast
  have cases: "(\<not> conn_new_ok ?t \<and> w' = ensure_dir e dst (emit (Starting_download url dst) w))
     \<or> (conn_new_ok ?t \<and> \<not> http_new_ok ?t \<and>
          w' = emit (Release Conn) (emit (Acquire Conn) (ensure_dir e dst (emit (Starting_download url dst) w))))
     \<or> (conn_new_ok ?t \<and> http_new_ok ?t \<and> w' = net_http_delete ?w2)
     \<or> (conn_new_ok ?t \<and> http_new_ok ?t \<and> w' = snd (finish_download e ?t dst ?w2))"
    using assms
    by (auto simp: http_download_file_def Let_def split: if_splits option.splits bool.splits)
  then show ?thesis
  proof (elim disjE conjE)
    assume "w' = snd (finish_download e ?t dst ?w2)"
    with evs have "trace w' = trace w @ Starting_download url dst # (Acquire Conn # Acquire Transfer # evs)"
      by simp
    moreover have "http_data ?t \<noteq> Some [] \<longrightarrow>
        (\<forall>r. acquired r (Acquire Conn # Acquire Transfer # evs) = released r (Acquire Conn # Acquire Transfer # evs)
           \<and> released r (Acquire Conn # Acquire Transfer # evs) \<le> 1)"
    proof (intro impI allI)
      fix r assume "http_data ?t \<noteq> Some []"
      with evs(2) have "acquired r evs + (if r = Conn \<or> r = Transfer then 1 else 0) = released r evs
             \<and> released r evs \<le> 1" by blast
      then show "acquired r (Acquire Conn # Acquire Transfer # evs) = released r (Acquire Conn # Acquire Transfer # evs)
           \<and> released r (Acquire Conn # Acquire Transfer # evs) \<le> 1"
        by (cases r) (simp_all add: acquired_def released_def)
    qed
    ultimately show ?thesis by blast
  qed (auto simp: acquired_def released_def)
qed




text \<open>The poll loops of the example transports.\<close>

lemma drive_transport_empty: "drive transport_empty 0 = Some True"
  by (subst drive.simps) (simp add: transport_empty_def)

lemma drive_transport_status: "drive (transport_status c) 0 = Some True"
  by (subst drive.simps, subst drive.simps) (simp add: transport_status_def)

lemma drive_transport_ok: "drive (transport_ok b) 0 = Some True"
  by (subst drive.simps, subst drive.simps, subst drive.simps) (simp add: transport_ok_def)

text \<open>The downloader's runs on a rejected status and on full success.\<close>

lemma http_download_file_starts:
  "http_download_file e url dst w = Some (res, w') \<Longrightarrow>
   \<exists>evs. trace w' = trace w @ Starting_download url dst # evs"
  using http_download_file_trace by blast

lemma download_status_run:
  assumes "net e url dst = t" "conn_new_ok t" "http_new_ok t" "drive t 0 = Some True"
    "\<not> http_error t" "\<not> (200 \<le> http_status t \<and> http_status t \<le> 299)"
  shows "\<exists>w'. http_download_file e url dst w = Some (False, w')
     \<and> files w' = files w
     \<and> trace w' = trace w @ [Starting_download url dst, Acquire Conn, Acquire Transfer,
            Release Transfer, Release Conn]"
  using assms
  by (simp add: http_download_file_def finish_download_def Let_def c_div_100_eq_2)

lemma download_ok_run:
  assumes "net e url dst = t" "conn_new_ok t" "http_new_ok t" "drive t 0 = Some True"
    "\<not> http_error t" "http_status t = 200" "http_data t = Some body" "body \<noteq> []"
    "fopen_wb_ok e dst" "fwrite_count e dst (length body) = length body"
    "fclose_flushed e dst (length body) = length body"
  shows "\<exists>w'. http_download_file e url dst w = Some (True, w')
     \<and> files w' = (files w)(dst \<mapsto> body)
     \<and> trace w' = trace w @ [Starting_download url dst, Acquire Conn, Acquire Transfer,
            Acquire Buffer, Acquire OutFile, Release OutFile, Release Buffer,
            Release Transfer, Release Conn]"
  using assms
  by (simp add: http_download_file_def finish_download_def Let_def c_div_100_eq_2)

lemma download_transport_status:
  assumes "net e url dst = transport_status code" "\<not> (200 \<le> code \<and> code \<le> 299)"
  shows "\<exists>w'. http_download_file e url dst w = Some (False, w')
     \<and> files w' = files w
     \<and> trace w' = trace w @ [Starting_download url dst, Acquire Conn, Acquire Transfer,
            Release Transfer, Release Conn]"
  by (rule download_status_run [where t = "transport_status code"])
     (use assms in \<open>simp_all add: drive_transport_status\<close>,
      simp_all add: transport_status_def)

lemma download_transport_ok:
  assumes "net e url dst = transport_ok body" "body \<noteq> []"
    "fopen_wb_ok e dst" "fwrite_count e dst (length body) = length body"
    "fclose_flushed e dst (length body) = length body"
  shows "\<exists>w'. http_download_file e url dst w = Some (True, w')
     \<and> files w' = (files w)(dst \<mapsto> body)
     \<and> trace w' = trace w @ [Starting_download url dst, Acquire Conn, Acquire Transfer,
            Acquire Buffer, Acquire OutFile, Release OutFile, Release Buffer,
            Release Transfer, Release Conn]"
  by (rule download_ok_run [where t = "transport_ok body"])
     (use assms in \<open>simp_all add: drive_transport_ok\<close>,
      simp_all add: transport_ok_def)

text \<open>The orchestrator, once the identifier is present.\<close>

lemma apply_webos_jailer_fix_Some:
  assumes "read_webos_release e w os_info_path = Some rel"
    and "http_download_file e (conf_url rel) conf_dst (before_downloads w) = Some (r1, w3)"
    and "http_download_file e (sig_url rel) sig_dst w3 = Some (r2, w4)"
  shows "apply_webos_jailer_fix e w = Some (r1 \<and> r2, w4)"
  using assms
  by (auto simp: apply_webos_jailer_fix_def before_downloads_def os_info_path_def
      conf_dst_def sig_dst_def Let_def)

lemma apply_webos_jailer_fix_present:
  assumes rd: "read_webos_release e w os_info_path = Some rel"
    and p1: "poll_ends (net e (conf_url rel) conf_dst) n1"
    and p2: "poll_ends (net e (sig_url rel) sig_dst) n2"
  shows "\<exists>r1 w3 r2 w4.
     http_download_file e (conf_url rel) conf_dst (before_downloads w) = Some (r1, w3)
     \<and> http_download_file e (sig_url rel) sig_dst w3 = Some (r2, w4)
     \<and> apply_webos_jailer_fix e w = Some (r1 \<and> r2, w4)"
proof -
  from http_download_file_returns [OF p1] obtain r1 w3 where
    d1: "http_download_file e (conf_url rel) conf_dst (before_downloads w) = Some (r1, w3)"
    by blast
  from http_download_file_returns [OF p2] obtain r2 w4 where
    d2: "http_download_file e (sig_url rel) sig_dst w3 = Some (r2, w4)"
    by blast
  from apply_webos_jailer_fix_Some [OF rd d1 d2] d1 d2 show ?thesis by blast
qed

text \<open>The example documents and worlds.\<close>

lemma strcmp_eq_refl: "strcmp_eq a a"
  by (simp add: strcmp_eq_def)

lemma scan_toks_24: "scan_release (rjson_open toks_24) = Some ''24''"
  by (simp add: rjson_open_def toks_24_def scan_release_other scan_release_match
      strcmp_eq_def c_str_def)


lemma scan_toks_empty_value: "scan_release (rjson_open toks_empty_value) = Some []"
  by (simp add: rjson_open_def toks_empty_value_def scan_release_other scan_release_match
      strcmp_eq_def c_str_def)

lemma c_str_long_release: "c_str long_release = long_release"
  by (rule c_str_no_NUL) (simp add: long_release_def)

lemma scan_toks_long: "scan_release (rjson_open toks_long) = Some long_release"
  by (simp add: rjson_open_def toks_long_def scan_release_other scan_release_match
      strcmp_eq_refl c_str_long_release)

lemma length_docs:
  "length doc_24 = 22" "length doc_nested = 27" "length doc_empty_value = 20"
  "length doc_long = 520"
  by (simp_all add: doc_24_def doc_nested_def doc_empty_value_def doc_long_def long_release_def)

lemma docs_distinct:
  "doc_nested \<noteq> doc_24" "doc_empty_value \<noteq> doc_24" "doc_empty_value \<noteq> doc_nested"
  "doc_long \<noteq> doc_24" "doc_long \<noteq> doc_nested" "doc_long \<noteq> doc_empty_value"
  using length_docs by auto

lemma files_world_with [simp]: "files (world_with fs) = fs"
  by (simp add: world_with_def)

lemma trace_world_with [simp]: "trace (world_with fs) = []"
  by (simp add: world_with_def)

lemma paths_distinct:
  "os_info_path \<noteq> conf_path" "os_info_path \<noteq> sig_path" "conf_path \<noteq> sig_path"
  "conf_dst \<noteq> conf_path" "conf_dst \<noteq> sig_path" "sig_dst \<noteq> conf_path"
  "sig_dst \<noteq> sig_path" "conf_dst \<noteq> sig_dst" "conf_dst \<noteq> os_info_path"
  "sig_dst \<noteq> os_info_path"
  by (simp_all add: os_info_path_def conf_path_def sig_path_def conf_dst_def sig_dst_def
      snprintf_def home_path_def)

lemma read_world_24: "read_webos_release (env_with n) world_24 os_info_path = Some ''24''"
  by (simp add: read_webos_release_def env_with_def world_24_def lex_example_def scan_toks_24)



lemma read_world_empty_value:
  "read_webos_release (env_with n) world_empty_value os_info_path = Some []"
  using docs_distinct
  by (simp add: read_webos_release_def env_with_def world_empty_value_def lex_example_def
      scan_toks_empty_value)

lemma read_world_long:
  "read_webos_release (env_with n) world_long os_info_path = Some long_release"
  using docs_distinct
  by (simp add: read_webos_release_def env_with_def world_long_def lex_example_def
      scan_toks_long)

lemma read_world_no_info:
  "read_webos_release e world_no_info os_info_path = None"
  by (simp add: read_webos_release_def world_no_info_def)


lemma invalid_world_24: "\<not> path_is_valid world_24 conf_path"
  using paths_distinct by (simp add: path_is_valid_def world_24_def)

lemma env_with_simps [simp]:
  "net (env_with n) = n" "fopen_wb_ok (env_with n) p" "fwrite_count (env_with n) p len = len"
  "fclose_flushed (env_with n) p len = len" "mkdir_ok (env_with n) p"
  by (simp_all add: env_with_def)





lemma rjson_lex_env_with [simp]: "rjson_lex (env_with n) = lex_example"
  by (simp add: env_with_def)






subsection \<open>The streaming downloader\<close>

text \<open>
  Claim C4. On every exit path of the downloader each acquired resource (connection
  context, transfer handle, response body buffer) is released exactly once. The code
  breaks this on the empty-body exit (lines 100 to 105): when \<^verbatim>\<open>net_http_data\<close>
  hands over a buffer of length 0, the exit calls \<^verbatim>\<open>net_http_delete\<close> only, while
  the three later exits call \<^verbatim>\<open>free(data)\<close> first. On a 200 response with such
  a buffer the buffer is acquired once and never released.
\<close>

theorem http_download_file_leaks_empty_buffer:
  "map_option fst (http_download_file env_empty_body (conf_url ''24'') conf_dst world_24)
     = Some False
   \<and> map_option (trace \<circ> snd)
         (http_download_file env_empty_body (conf_url ''24'') conf_dst world_24)
     = Some [Starting_download (conf_url ''24'') conf_dst, Acquire Conn, Acquire Transfer,
             Acquire Buffer, Release Transfer, Release Conn]
   \<and> map_option (acquired Buffer \<circ> trace \<circ> snd)
         (http_download_file env_empty_body (conf_url ''24'') conf_dst world_24)
     = Some 1
   \<and> map_option (released Buffer \<circ> trace \<circ> snd)
         (http_download_file env_empty_body (conf_url ''24'') conf_dst world_24)
     = Some 0"
  by (simp add: http_download_file_def finish_download_def Let_def env_empty_body_def
      env_with_def drive_transport_empty [unfolded transport_empty_def] transport_empty_def
      c_div_def world_24_def world_with_def acquired_def released_def)

text \<open>
  On every other exit path the claim holds: when the body is not a buffer of length 0,
  a returning call releases each resource as often as it acquired it, and at most once
  (lemma \<open>http_download_file_trace\<close> above).
\<close>

text \<open>
  Claim C6. For a response whose status is outside the 2xx class the downloader returns
  false and leaves every file, the destination among them, as it was. The poll loop has
  to end for the downloader to return at all; the status test of line 90,
  \<^verbatim>\<open>status / 100 != 2\<close>, is the test \<open>\<not> (200 \<le> status \<and> status \<le> 299)\<close>
  (lemma \<open>c_div_100_eq_2\<close>).
\<close>

theorem http_download_file_status_gate:
  assumes "poll_ends (net e url dst) n"
    and "\<not> (200 \<le> http_status (net e url dst) \<and> http_status (net e url dst) \<le> 299)"
  shows "\<exists>w'. http_download_file e url dst w = Some (False, w') \<and> files w' = files w"
proof -
  from drive_ends [OF assms(1)] obtain b where b: "drive (net e url dst) 0 = Some b" ..
  show ?thesis
  proof (cases b)
    case True
    with b finish_download_non2xx [OF assms(2)] show ?thesis
      by (auto simp: http_download_file_def Let_def prod_eq_iff)
  next
    case False
    with b show ?thesis
      by (auto simp: http_download_file_def Let_def)
  qed
qed

theorem http_download_file_status_gate_witness:
  "poll_ends (net env_500 (conf_url ''24'') conf_dst) 1
   \<and> \<not> (200 \<le> http_status (net env_500 (conf_url ''24'') conf_dst)
         \<and> http_status (net env_500 (conf_url ''24'') conf_dst) \<le> 299)
   \<and> (\<exists>w'. http_download_file env_500 (conf_url ''24'') conf_dst world_24 = Some (False, w')
           \<and> files w' = files world_24)"
proof -
  have h1: "poll_ends (net env_500 (conf_url ''24'') conf_dst) 1"
    by (simp add: poll_ends_def env_500_def env_with_def transport_status_def)
  have h2: "\<not> (200 \<le> http_status (net env_500 (conf_url ''24'') conf_dst)
         \<and> http_status (net env_500 (conf_url ''24'') conf_dst) \<le> 299)"
    by (simp add: env_500_def env_with_def transport_status_def)
  from http_download_file_status_gate [OF h1 h2, of world_24] h1 h2 show ?thesis by blast
qed

text \<open>
  Claim C7. For a response with a null body buffer or a body of length 0 the downloader
  returns false, whatever the status, 2xx included (lines 100 to 105); no file is
  touched. The poll loop has to end for the downloader to return at all.
\<close>

theorem http_download_file_empty_body_gate:
  assumes "poll_ends (net e url dst) n"
    and "http_data (net e url dst) = None \<or> http_data (net e url dst) = Some []"
  shows "\<exists>w'. http_download_file e url dst w = Some (False, w') \<and> files w' = files w"
proof -
  from drive_ends [OF assms(1)] obtain b where b: "drive (net e url dst) 0 = Some b" ..
  show ?thesis
  proof (cases b)
    case True
    with b finish_download_no_body [OF assms(2)] show ?thesis
      by (auto simp: http_download_file_def Let_def prod_eq_iff)
  next
    case False
    with b show ?thesis
      by (auto simp: http_download_file_def Let_def)
  qed
qed

theorem http_download_file_empty_body_gate_witness:
  "poll_ends (net env_empty_body (conf_url ''24'') conf_dst) 0
   \<and> (http_data (net env_empty_body (conf_url ''24'') conf_dst) = None
       \<or> http_data (net env_empty_body (conf_url ''24'') conf_dst) = Some [])
   \<and> http_status (net env_empty_body (conf_url ''24'') conf_dst) = 200
   \<and> (\<exists>w'. http_download_file env_empty_body (conf_url ''24'') conf_dst world_24
              = Some (False, w')
           \<and> files w' = files world_24)"
proof -
  have h1: "poll_ends (net env_empty_body (conf_url ''24'') conf_dst) 0"
    by (simp add: poll_ends_def env_empty_body_def env_with_def transport_empty_def)
  have h2: "http_data (net env_empty_body (conf_url ''24'') conf_dst) = None
       \<or> http_data (net env_empty_body (conf_url ''24'') conf_dst) = Some []"
    by (simp add: env_empty_body_def env_with_def transport_empty_def)
  have h3: "http_status (net env_empty_body (conf_url ''24'') conf_dst) = 200"
    by (simp add: env_empty_body_def env_with_def transport_empty_def)
  from http_download_file_empty_body_gate [OF h1 h2, of world_24] h1 h2 h3 show ?thesis
    by blast
qed

text \<open>
  The result of \<^verbatim>\<open>fclose\<close> is dropped (line 126): the downloader can return true
  with a file shorter than the body.
\<close>

lemma download_true_with_short_file:
  "map_option fst (http_download_file env_lossy_close (conf_url ''24'') conf_dst world_24)
     = Some True
   \<and> file_after (http_download_file env_lossy_close (conf_url ''24'') conf_dst world_24) conf_dst
     = Some ''pay''"
  by (simp add: http_download_file_def finish_download_def Let_def env_lossy_close_def
      env_with_def drive_transport_ok [unfolded transport_ok_def] transport_ok_def
      c_div_def file_after_def)

subsection \<open>The identifier reader\<close>




text \<open>
  Claim C9 says that a present identifier is never the empty string. Nothing in the
  reader checks the captured value: for \<^verbatim>\<open>{"webos_release":""}\<close> it returns the
  empty string as a present identifier (\<^verbatim>\<open>strndup\<close> of an empty string is not
  NULL).
\<close>

theorem read_webos_release_empty_counterexample:
  "files world_empty_value os_info_path = Some doc_empty_value
   \<and> rjson_lex env_ok doc_empty_value
      = [(RJSON_OBJECT, Some []), (RJSON_STRING, Some ''webos_release''),
         (RJSON_STRING, Some []), (RJSON_OBJECT_END, Some [])]
   \<and> read_webos_release env_ok world_empty_value os_info_path = Some []"
  using docs_distinct
  by (simp add: env_ok_def read_world_empty_value)
     (simp add: env_with_def lex_example_def world_empty_value_def toks_empty_value_def)

text \<open>
  Claim C9, amended. A present identifier is the copy, up to the first NUL byte, of the
  text of a string token of the document; it is empty exactly when that text is empty or
  begins with a NUL byte.
\<close>

theorem read_webos_release_present_value:
  assumes "read_webos_release e w p = Some s"
  shows "\<exists>buf v.
     files w p = Some buf
     \<and> (RJSON_STRING, Some v) \<in> set (rjson_lex e buf)
     \<and> s = c_str v
     \<and> (s = [] \<longleftrightarrow> v = [] \<or> hd v = CHR 0x00)"
proof -
  from assms obtain buf where buf: "files w p = Some buf"
    and sc: "scan_release (rjson_open (rjson_lex e buf)) = Some s"
    by (auto simp: read_webos_release_def split: option.splits if_splits)
  from scan_release_SomeD [OF sc [unfolded rjson_open_def]] obtain pre k v rest where
    "rjson_lex e buf = pre @ (RJSON_STRING, Some k) # (RJSON_STRING, Some v) # rest"
    "s = c_str v"
    by blast
  then have "(RJSON_STRING, Some v) \<in> set (rjson_lex e buf)" "s = c_str v"
    "s = [] \<longleftrightarrow> v = [] \<or> hd v = CHR 0x00"
    by (simp_all add: c_str_empty_iff)
  with buf show ?thesis by blast
qed

theorem read_webos_release_present_value_witness:
  "read_webos_release env_ok world_24 os_info_path = Some ''24''
   \<and> (\<exists>buf v.
     files world_24 os_info_path = Some buf
     \<and> (RJSON_STRING, Some v) \<in> set (rjson_lex env_ok buf)
     \<and> ''24'' = c_str v
     \<and> (''24'' = [] \<longleftrightarrow> v = [] \<or> hd v = CHR 0x00))"
proof -
  have h: "read_webos_release env_ok world_24 os_info_path = Some ''24''"
    unfolding env_ok_def by (rule read_world_24)
  from read_webos_release_present_value [OF h] h show ?thesis by blast
qed

subsection \<open>The orchestrator\<close>




text \<open>
  Claim C3. With the identifier present, the second download is attempted whatever the
  first one returned, and the orchestrator returns the conjunction of the two outcomes
  (lines 233 to 254); both poll loops have to end for it to return.
\<close>

theorem provision_no_early_abort:
  assumes "read_webos_release e w os_info_path = Some rel"
    and "poll_ends (net e (conf_url rel) conf_dst) n1"
    and "poll_ends (net e (sig_url rel) sig_dst) n2"
  shows "\<exists>r1 w3 r2 w4.
     http_download_file e (conf_url rel) conf_dst (before_downloads w) = Some (r1, w3)
     \<and> http_download_file e (sig_url rel) sig_dst w3 = Some (r2, w4)
     \<and> apply_webos_jailer_fix e w = Some (r1 \<and> r2, w4)
     \<and> Starting_download (sig_url rel) sig_dst \<in> set (trace w4)"
proof -
  from apply_webos_jailer_fix_present [OF assms] obtain r1 w3 r2 w4 where
    d: "http_download_file e (conf_url rel) conf_dst (before_downloads w) = Some (r1, w3)"
       "http_download_file e (sig_url rel) sig_dst w3 = Some (r2, w4)"
       "apply_webos_jailer_fix e w = Some (r1 \<and> r2, w4)"
    by blast
  from http_download_file_starts [OF d(2)]
  have "Starting_download (sig_url rel) sig_dst \<in> set (trace w4)" by auto
  with d show ?thesis by blast
qed

lemma provision_first_fails_run:
  "\<exists>w3 w4.
     http_download_file env_first_fails (conf_url ''24'') conf_dst (before_downloads world_24)
       = Some (False, w3)
     \<and> http_download_file env_first_fails (sig_url ''24'') sig_dst w3 = Some (True, w4)
     \<and> apply_webos_jailer_fix env_first_fails world_24 = Some (False, w4)
     \<and> files w4 sig_dst = Some ''payload''"
proof -
  let ?e = env_first_fails
  have rd: "read_webos_release ?e world_24 os_info_path = Some ''24''"
    unfolding env_first_fails_def by (rule read_world_24)
  obtain w3 where d1: "http_download_file ?e (conf_url ''24'') conf_dst (before_downloads world_24)
       = Some (False, w3)"
    using download_transport_status [of ?e "conf_url ''24''" conf_dst 500 "before_downloads world_24"]
    by (auto simp: env_first_fails_def)
  obtain w4 where d2: "http_download_file ?e (sig_url ''24'') sig_dst w3 = Some (True, w4)"
    and f4: "files w4 = (files w3)(sig_dst \<mapsto> ''payload'')"
    using download_transport_ok [of ?e "sig_url ''24''" sig_dst "''payload''" w3] paths_distinct
    by (auto simp: env_first_fails_def)
  from apply_webos_jailer_fix_Some [OF rd d1 d2] d1 d2 f4 show ?thesis by auto
qed

theorem provision_no_early_abort_witness:
  "read_webos_release env_first_fails world_24 os_info_path = Some ''24''
   \<and> poll_ends (net env_first_fails (conf_url ''24'') conf_dst) 1
   \<and> poll_ends (net env_first_fails (sig_url ''24'') sig_dst) 2
   \<and> (\<exists>r1 w3 r2 w4.
     http_download_file env_first_fails (conf_url ''24'') conf_dst (before_downloads world_24)
       = Some (r1, w3)
     \<and> http_download_file env_first_fails (sig_url ''24'') sig_dst w3 = Some (r2, w4)
     \<and> apply_webos_jailer_fix env_first_fails world_24 = Some (r1 \<and> r2, w4)
     \<and> Starting_download (sig_url ''24'') sig_dst \<in> set (trace w4))
   \<and> map_option fst (apply_webos_jailer_fix env_first_fails world_24) = Some False"
proof -
  have h1: "read_webos_release env_first_fails world_24 os_info_path = Some ''24''"
    unfolding env_first_fails_def by (rule read_world_24)
  have h2: "poll_ends (net env_first_fails (conf_url ''24'') conf_dst) 1"
    by (simp add: poll_ends_def env_first_fails_def transport_status_def)
  have h3: "poll_ends (net env_first_fails (sig_url ''24'') sig_dst) 2"
    using paths_distinct
    by (simp add: poll_ends_def env_first_fails_def transport_ok_def)
  have "map_option fst (apply_webos_jailer_fix env_first_fails world_24) = Some False"
    using provision_first_fails_run by auto
  with provision_no_early_abort [OF h1 h2 h3] h1 h2 h3 show ?thesis by blast
qed




text \<open>
  Claim C2. The two downloads are persisted at the paths the existence check inspects.
  The code passes \<^verbatim>\<open>/media/developer/temp/test.1\<close> and \<^verbatim>\<open>test.2\<close> where its
  own comments name \<^verbatim>\<open>conf_path\<close> and \<^verbatim>\<open>sig_path\<close> (lines 235 and 243): on a
  run with identifier 24 where both downloads succeed, the orchestrator returns true, the
  bodies are in the two test files, and the checked paths are still absent.
\<close>

theorem provision_writes_test_paths:
  "map_option fst (apply_webos_jailer_fix env_ok world_24) = Some True
   \<and> file_after (apply_webos_jailer_fix env_ok world_24) conf_dst = Some ''payload''
   \<and> file_after (apply_webos_jailer_fix env_ok world_24) sig_dst = Some ''payload''
   \<and> file_after (apply_webos_jailer_fix env_ok world_24) conf_path = None
   \<and> file_after (apply_webos_jailer_fix env_ok world_24) sig_path = None
   \<and> map_option (trace \<circ> snd) (apply_webos_jailer_fix env_ok world_24)
     = Some [Notify ''webOS: Downloading jailer configuration files'',
         Starting_download (conf_url ''24'') conf_dst, Acquire Conn, Acquire Transfer,
         Acquire Buffer, Acquire OutFile, Release OutFile, Release Buffer,
         Release Transfer, Release Conn,
         Starting_download (sig_url ''24'') sig_dst, Acquire Conn, Acquire Transfer,
         Acquire Buffer, Acquire OutFile, Release OutFile, Release Buffer,
         Release Transfer, Release Conn]"
proof -
  let ?e = env_ok
  let ?w = world_24
  have rd: "read_webos_release ?e ?w os_info_path = Some ''24''"
    unfolding env_ok_def by (rule read_world_24)
  have b: "before_downloads ?w
      = emit (Notify ''webOS: Downloading jailer configuration files'') ?w"
    using invalid_world_24 by (simp add: before_downloads_def)
  obtain w3 where d1: "http_download_file ?e (conf_url ''24'') conf_dst (before_downloads ?w)
       = Some (True, w3)"
    and f3: "files w3 = (files (before_downloads ?w))(conf_dst \<mapsto> ''payload'')"
    and t3: "trace w3 = trace (before_downloads ?w) @
       [Starting_download (conf_url ''24'') conf_dst, Acquire Conn, Acquire Transfer,
        Acquire Buffer, Acquire OutFile, Release OutFile, Release Buffer,
        Release Transfer, Release Conn]"
    using download_transport_ok [of ?e "conf_url ''24''" conf_dst "''payload''" "before_downloads ?w"]
    by (auto simp: env_ok_def)
  obtain w4 where d2: "http_download_file ?e (sig_url ''24'') sig_dst w3 = Some (True, w4)"
    and f4: "files w4 = (files w3)(sig_dst \<mapsto> ''payload'')"
    and t4: "trace w4 = trace w3 @
       [Starting_download (sig_url ''24'') sig_dst, Acquire Conn, Acquire Transfer,
        Acquire Buffer, Acquire OutFile, Release OutFile, Release Buffer,
        Release Transfer, Release Conn]"
    using download_transport_ok [of ?e "sig_url ''24''" sig_dst "''payload''" w3]
    by (auto simp: env_ok_def)
  have fs: "files w4 = [os_info_path \<mapsto> doc_24, conf_dst \<mapsto> ''payload'', sig_dst \<mapsto> ''payload'']"
    using f3 f4 b by (simp add: world_24_def)
  have tr: "trace w4 = [Notify ''webOS: Downloading jailer configuration files'',
         Starting_download (conf_url ''24'') conf_dst, Acquire Conn, Acquire Transfer,
         Acquire Buffer, Acquire OutFile, Release OutFile, Release Buffer,
         Release Transfer, Release Conn,
         Starting_download (sig_url ''24'') sig_dst, Acquire Conn, Acquire Transfer,
         Acquire Buffer, Acquire OutFile, Release OutFile, Release Buffer,
         Release Transfer, Release Conn]"
    using t3 t4 b by (simp add: world_24_def)
  from apply_webos_jailer_fix_Some [OF rd d1 d2]
  have r: "apply_webos_jailer_fix ?e ?w = Some (True, w4)" by simp
  show ?thesis
    unfolding r using fs tr paths_distinct by (simp add: file_after_def)
qed

text \<open>
  Claim C10. The URLs are built by \<^verbatim>\<open>snprintf\<close> into 512-byte buffers (lines 223
  to 229): when the formatted configuration URL is longer than 511 characters, the URL
  used is its first 511 characters, nothing fails at construction, and the downloads are
  run with the truncated URLs, their outcomes deciding the result as usual.
\<close>

theorem provision_truncates_url:
  assumes "read_webos_release e w os_info_path = Some rel"
    and "511 < length (conf_url_text rel)"
    and "poll_ends (net e (take 511 (conf_url_text rel)) conf_dst) n1"
    and "poll_ends (net e (take 511 (sig_url_text rel)) sig_dst) n2"
  shows "conf_url rel = take 511 (conf_url_text rel)
     \<and> length (conf_url rel) = 511
     \<and> conf_url rel \<noteq> conf_url_text rel
     \<and> sig_url rel = take 511 (sig_url_text rel)
     \<and> (\<exists>r1 w3 r2 w4.
          http_download_file e (take 511 (conf_url_text rel)) conf_dst (before_downloads w)
            = Some (r1, w3)
          \<and> http_download_file e (take 511 (sig_url_text rel)) sig_dst w3 = Some (r2, w4)
          \<and> apply_webos_jailer_fix e w = Some (r1 \<and> r2, w4)
          \<and> Starting_download (take 511 (conf_url_text rel)) conf_dst \<in> set (trace w4)
          \<and> Starting_download (take 511 (sig_url_text rel)) sig_dst \<in> set (trace w4))"
proof -
  have c: "conf_url rel = take 511 (conf_url_text rel)"
    and s: "sig_url rel = take 511 (sig_url_text rel)"
    by (simp_all add: conf_url_def sig_url_def snprintf_def)
  have l: "length (conf_url rel) = 511" using assms(2) c by simp
  then have ne: "conf_url rel \<noteq> conf_url_text rel" using assms(2) by auto
  from apply_webos_jailer_fix_present [OF assms(1), of n1 n2] assms(3,4) c s
  obtain r1 w3 r2 w4 where
    d: "http_download_file e (conf_url rel) conf_dst (before_downloads w) = Some (r1, w3)"
       "http_download_file e (sig_url rel) sig_dst w3 = Some (r2, w4)"
       "apply_webos_jailer_fix e w = Some (r1 \<and> r2, w4)"
    by auto
  from http_download_file_starts [OF d(1)] obtain evs1 where
    t3: "trace w3 = trace (before_downloads w) @ Starting_download (conf_url rel) conf_dst # evs1"
    by blast
  from http_download_file_starts [OF d(2)] obtain evs2 where
    t4: "trace w4 = trace w3 @ Starting_download (sig_url rel) sig_dst # evs2"
    by blast
  have "Starting_download (conf_url rel) conf_dst \<in> set (trace w4)"
    "Starting_download (sig_url rel) sig_dst \<in> set (trace w4)"
    using t3 t4 by simp_all
  with d c s l ne show ?thesis by metis
qed

lemma conf_url_long_release:
  "conf_url long_release
    = ''https://developer.lge.com/common/file/DownloadFile.dev?sdkVersion=''
      @ replicate 445 CHR ''a''"
  by (simp add: conf_url_def snprintf_def conf_url_text_def c_str_long_release)
     (simp add: long_release_def)

theorem provision_truncates_url_witness:
  "read_webos_release env_ok world_long os_info_path = Some long_release
   \<and> 511 < length (conf_url_text long_release)
   \<and> poll_ends (net env_ok (take 511 (conf_url_text long_release)) conf_dst) 2
   \<and> poll_ends (net env_ok (take 511 (sig_url_text long_release)) sig_dst) 2
   \<and> conf_url long_release = take 511 (conf_url_text long_release)
   \<and> length (conf_url long_release) = 511
   \<and> conf_url long_release \<noteq> conf_url_text long_release
   \<and> sig_url long_release = take 511 (sig_url_text long_release)
   \<and> (\<exists>r1 w3 r2 w4.
          http_download_file env_ok (take 511 (conf_url_text long_release)) conf_dst
              (before_downloads world_long)
            = Some (r1, w3)
          \<and> http_download_file env_ok (take 511 (sig_url_text long_release)) sig_dst w3
            = Some (r2, w4)
          \<and> apply_webos_jailer_fix env_ok world_long = Some (r1 \<and> r2, w4)
          \<and> Starting_download (take 511 (conf_url_text long_release)) conf_dst
              \<in> set (trace w4)
          \<and> Starting_download (take 511 (sig_url_text long_release)) sig_dst
              \<in> set (trace w4))"
proof -
  have h1: "read_webos_release env_ok world_long os_info_path = Some long_release"
    unfolding env_ok_def by (rule read_world_long)
  have h2: "511 < length (conf_url_text long_release)"
    by (simp add: conf_url_text_def c_str_long_release) (simp add: long_release_def)
  have h3: "poll_ends (net env_ok (take 511 (conf_url_text long_release)) conf_dst) 2"
    by (simp add: poll_ends_def env_ok_def transport_ok_def)
  have h4: "poll_ends (net env_ok (take 511 (sig_url_text long_release)) sig_dst) 2"
    by (simp add: poll_ends_def env_ok_def transport_ok_def)
  from provision_truncates_url [OF h1 h2 h3 h4] h1 h2 h3 h4 show ?thesis by blast
qed

end
